theory Spec2Isabelle
  imports Complex_Main "HOL-Library.Multiset"
begin

section \<open>Harmony search for pairing numbers: the data model\<close>

text \<open>
  The program pairs the elements of a list of numbers so that every pair's sum is close
  to the average pair sum. The numbers are Python integers (\<open>int\<close>). The target
  average and the fitness are Python floats in the source; they are modelled by exact
  rationals, extended by the one special value the source creates itself,
  \<^verbatim>\<open>float('inf')\<close>. Rounding of floating-point arithmetic is not modelled.
\<close>

datatype fitness_value = Fin rat | PInf

text \<open>Addition of floats where the only special value is \<^verbatim>\<open>inf\<close>.\<close>

fun fit_add :: "fitness_value \<Rightarrow> fitness_value \<Rightarrow> fitness_value" where
  "fit_add (Fin a) (Fin b) = Fin (a + b)"
| "fit_add _ _ = PInf"

text \<open>The order of floats: every finite value is below \<^verbatim>\<open>inf\<close>.\<close>

instantiation fitness_value :: linorder
begin

fun less_eq_fitness_value :: "fitness_value \<Rightarrow> fitness_value \<Rightarrow> bool" where
  "less_eq_fitness_value (Fin a) (Fin b) = (a \<le> b)"
| "less_eq_fitness_value _ PInf = True"
| "less_eq_fitness_value PInf (Fin b) = False"

fun less_fitness_value :: "fitness_value \<Rightarrow> fitness_value \<Rightarrow> bool" where
  "less_fitness_value (Fin a) (Fin b) = (a < b)"
| "less_fitness_value (Fin a) PInf = True"
| "less_fitness_value PInf _ = False"

instance
proof
  fix x y z :: fitness_value
  show "(x < y) = (x \<le> y \<and> \<not> y \<le> x)"
    by (cases x; cases y) auto
  show "x \<le> x"
    by (cases x) auto
  show "x \<le> y \<Longrightarrow> y \<le> z \<Longrightarrow> x \<le> z"
    by (cases x; cases y; cases z) auto
  show "x \<le> y \<Longrightarrow> y \<le> x \<Longrightarrow> x = y"
    by (cases x; cases y) auto
  show "x \<le> y \<or> y \<le> x"
    by (cases x; cases y) auto
qed

end

text \<open>The exceptions the modelled code can raise.\<close>

datatype error = IndexError | ZeroDivisionError

text \<open>
  One record of the harmony memory: the dictionary
  \<^verbatim>\<open>{'harmony': ..., 'fitness': ...}\<close> of the source.
\<close>

record entry =
  entry_harmony :: "int list"
  entry_fitness :: fitness_value

text \<open>
  Reading \<^verbatim>\<open>xs[i]\<close> in Python: a position from the front when \<open>i\<close> is not
  negative, from the back when it is, and \<^verbatim>\<open>IndexError\<close> when there is no such
  position.
\<close>

definition py_index :: "'a list \<Rightarrow> int \<Rightarrow> error + 'a" where
  "py_index xs i =
     (if 0 \<le> i \<and> i < int (length xs) then Inr (xs ! nat i)
      else if i < 0 \<and> - int (length xs) \<le> i then Inr (xs ! nat (int (length xs) + i))
      else Inl IndexError)"

text \<open>Writing \<^verbatim>\<open>xs[i] = v\<close>, with the same positions.\<close>

definition py_setitem :: "'a list \<Rightarrow> int \<Rightarrow> 'a \<Rightarrow> error + 'a list" where
  "py_setitem xs i v =
     (if 0 \<le> i \<and> i < int (length xs) then Inr (xs[nat i := v])
      else if i < 0 \<and> - int (length xs) \<le> i then Inr (xs[nat (int (length xs) + i) := v])
      else Inl IndexError)"

section \<open>The fitness function\<close>

text \<open>
  \<^verbatim>\<open>calculate_fitness\<close>, lines 5 to 29. The loop over \<^verbatim>\<open>range(num_pairs)\<close>
  is \<open>fitness_loop\<close> over the list of its indices, with \<^verbatim>\<open>total_deviation\<close> as
  accumulator. In the penalty branch \<^verbatim>\<open>float('inf') / num_pairs\<close> is
  \<^verbatim>\<open>inf\<close>, because \<^verbatim>\<open>num_pairs\<close> is positive inside the loop.
\<close>

fun fitness_loop :: "int list \<Rightarrow> rat \<Rightarrow> nat list \<Rightarrow> fitness_value \<Rightarrow> fitness_value" where
  "fitness_loop harmony target_average [] total_deviation = total_deviation"
| "fitness_loop harmony target_average (i # rest) total_deviation =
     (let idx1 = 2 * i; idx2 = 2 * i + 1 in
      if idx1 < length harmony \<and> idx2 < length harmony then
        (let pair_sum = harmony ! idx1 + harmony ! idx2 in
         fitness_loop harmony target_average rest
           (fit_add total_deviation (Fin \<bar>of_int pair_sum - target_average\<bar>)))
      else
        fitness_loop harmony target_average rest (fit_add total_deviation PInf))"

definition calculate_fitness :: "int list \<Rightarrow> int list \<Rightarrow> rat \<Rightarrow> fitness_value" where
  "calculate_fitness harmony numbers target_average =
     (if harmony = [] then PInf
      else
        (let total_deviation = Fin 0;
             num_pairs = length numbers div 2
         in fitness_loop harmony target_average [0..<num_pairs] total_deviation))"

section \<open>The random source\<close>

text \<open>
  The source draws from Python's module \<^verbatim>\<open>random\<close>, whose generator is global
  state. The model passes the generator state \<open>'g\<close> explicitly and takes the four
  functions the program calls as a parameter: each returns its result and the next state.
  \<^item> \<open>random_random\<close> is \<^verbatim>\<open>random.random()\<close>;
  \<^item> \<open>random_randint a b\<close> is \<^verbatim>\<open>random.randint(a, b)\<close>;
  \<^item> \<open>random_sample2 n\<close> is \<^verbatim>\<open>random.sample(range(n), 2)\<close>;
  \<^item> \<open>random_shuffle xs\<close> is \<^verbatim>\<open>random.shuffle(xs)\<close>, returning the shuffled list.
\<close>

record 'g random_module =
  random_random :: "'g \<Rightarrow> rat \<times> 'g"
  random_randint :: "int \<Rightarrow> int \<Rightarrow> 'g \<Rightarrow> int \<times> 'g"
  random_sample2 :: "nat \<Rightarrow> 'g \<Rightarrow> (nat \<times> nat) \<times> 'g"
  random_shuffle :: "int list \<Rightarrow> 'g \<Rightarrow> int list \<times> 'g"

text \<open>
  What the library's documentation promises of these functions, in every generator state:
  a float in \<open>[0, 1)\<close>, an integer between the bounds, two distinct positions of the
  population, a rearrangement of the list.
\<close>

definition random_contract :: "'g random_module \<Rightarrow> bool" where
  "random_contract R \<longleftrightarrow>
     (\<forall>g. 0 \<le> fst (random_random R g) \<and> fst (random_random R g) < 1) \<and>
     (\<forall>a b g. a \<le> b \<longrightarrow> a \<le> fst (random_randint R a b g) \<and> fst (random_randint R a b g) \<le> b) \<and>
     (\<forall>n g. 2 \<le> n \<longrightarrow>
        fst (fst (random_sample2 R n g)) < n \<and> snd (fst (random_sample2 R n g)) < n \<and>
        fst (fst (random_sample2 R n g)) \<noteq> snd (fst (random_sample2 R n g))) \<and>
     (\<forall>xs g. mset (fst (random_shuffle R xs g)) = mset xs)"

text \<open>
  A small concrete generator, used to run the program on examples: its state is a
  counter, and every result is derived from the counter.
\<close>

definition counter_random :: "nat random_module" where
  "counter_random =
     \<lparr> random_random = (\<lambda>g. (of_nat (g mod 10) / 10, Suc g)),
       random_randint = (\<lambda>a b g. (a + int g mod (b - a + 1), Suc g)),
       random_sample2 = (\<lambda>n g. ((g mod n, Suc (g mod n) mod n), Suc g)),
       random_shuffle = (\<lambda>xs g. (rotate g xs, Suc g)) \<rparr>"

section \<open>The operators on harmonies\<close>

text \<open>
  \<^verbatim>\<open>generate_random_harmony\<close>, lines 33 to 37: a copy of \<^verbatim>\<open>numbers\<close>,
  shuffled. The input list is not changed.
\<close>

definition generate_random_harmony :: "'g random_module \<Rightarrow> int list \<Rightarrow> 'g \<Rightarrow> int list \<times> 'g" where
  "generate_random_harmony R numbers g = random_shuffle R numbers g"

text \<open>
  \<^verbatim>\<open>apply_pitch_adjustment\<close>, lines 39 to 49. The tuple assignment of line 48 reads
  both elements, then writes both; each access raises \<^verbatim>\<open>IndexError\<close> out of
  range. The source changes the list in place and returns it; the model returns the
  changed list.
\<close>

definition apply_pitch_adjustment ::
    "'g random_module \<Rightarrow> 'a list \<Rightarrow> 'g \<Rightarrow> error + ('a list \<times> 'g)" where
  "apply_pitch_adjustment R harmony g =
     (if length harmony < 2 then Inr (harmony, g)
      else
        (let ((idx1, idx2), g1) = random_sample2 R (length harmony) g in
         if idx1 < length harmony \<and> idx2 < length harmony then
           Inr (harmony[idx1 := harmony ! idx2, idx2 := harmony ! idx1], g1)
         else Inl IndexError))"

section \<open>The search\<close>

text \<open>
  Lines 81 to 85: the loop that fills the harmony memory, over the indices of
  \<^verbatim>\<open>range(hms)\<close>.
\<close>

fun fill_memory ::
    "'g random_module \<Rightarrow> int list \<Rightarrow> rat \<Rightarrow> nat list \<Rightarrow> entry list \<Rightarrow> 'g \<Rightarrow> entry list \<times> 'g" where
  "fill_memory R numbers target_average [] harmony_memory g = (harmony_memory, g)"
| "fill_memory R numbers target_average (_ # rest) harmony_memory g =
     (let (harmony, g1) = generate_random_harmony R numbers g;
          fitness = calculate_fitness harmony numbers target_average
      in fill_memory R numbers target_average rest
           (harmony_memory @ [\<lparr> entry_harmony = harmony, entry_fitness = fitness \<rparr>]) g1)"

text \<open>
  Lines 80 to 90: fill, sort by fitness (Python's sort is stable, as \<open>sort_key\<close> is), and
  read the best fitness for the message of line 90, which raises \<^verbatim>\<open>IndexError\<close>
  on an empty memory. Printing itself is not modelled.
\<close>

definition initialise_memory ::
    "'g random_module \<Rightarrow> int list \<Rightarrow> int \<Rightarrow> rat \<Rightarrow> 'g \<Rightarrow> error + (entry list \<times> 'g)" where
  "initialise_memory R numbers hms target_average g =
     (let (filled, g1) = fill_memory R numbers target_average [0..<nat hms] [] g;
          harmony_memory = sort_key entry_fitness filled
      in case py_index harmony_memory 0 of
           Inl e \<Rightarrow> Inl e
         | Inr best \<Rightarrow> Inr (harmony_memory, g1))"

text \<open>Lines 94 to 113: the new harmony of one iteration.\<close>

definition improvise ::
    "'g random_module \<Rightarrow> int list \<Rightarrow> int \<Rightarrow> rat \<Rightarrow> rat \<Rightarrow> entry list \<Rightarrow> 'g
       \<Rightarrow> error + (int list \<times> 'g)" where
  "improvise R numbers hms hmcr par harmony_memory g =
     (let (rand_hmcr, g1) = random_random R g in
      if rand_hmcr < hmcr then
        (let (base_harmony_idx, g2) = random_randint R 0 (hms - 1) g1 in
         case py_index harmony_memory base_harmony_idx of
           Inl e \<Rightarrow> Inl e
         | Inr base \<Rightarrow>
             (let new_harmony = entry_harmony base;
                  (rand_par, g3) = random_random R g2
              in if rand_par < par then apply_pitch_adjustment R new_harmony g3
                 else Inr (new_harmony, g3)))
      else Inr (generate_random_harmony R numbers g1))"

text \<open>
  Lines 116 to 126: the new harmony is scored and replaces the last record when it is
  strictly better; the memory is then sorted again.
\<close>

definition update_memory :: "int list \<Rightarrow> rat \<Rightarrow> entry list \<Rightarrow> int list \<Rightarrow> error + entry list" where
  "update_memory numbers target_average harmony_memory new_harmony =
     (let new_fitness = calculate_fitness new_harmony numbers target_average in
      case py_index harmony_memory (- 1) of
        Inl e \<Rightarrow> Inl e
      | Inr worst \<Rightarrow>
          (let worst_fitness = entry_fitness worst in
           if new_fitness < worst_fitness then
             (case py_setitem harmony_memory (- 1)
                     \<lparr> entry_harmony = new_harmony, entry_fitness = new_fitness \<rparr> of
                Inl e \<Rightarrow> Inl e
              | Inr replaced \<Rightarrow> Inr (sort_key entry_fitness replaced))
           else Inr harmony_memory))"

text \<open>
  Lines 94 to 130: one iteration. Line 129 computes
  \<^verbatim>\<open>(iteration + 1) % (ni // 10)\<close>, which raises \<^verbatim>\<open>ZeroDivisionError\<close> when
  \<^verbatim>\<open>ni // 10\<close> is zero; the message of line 130 reads the first record.
\<close>

definition improvisation_step ::
    "'g random_module \<Rightarrow> int list \<Rightarrow> int \<Rightarrow> rat \<Rightarrow> rat \<Rightarrow> int \<Rightarrow> rat \<Rightarrow> nat
       \<Rightarrow> entry list \<Rightarrow> 'g \<Rightarrow> error + (entry list \<times> 'g)" where
  "improvisation_step R numbers hms hmcr par ni target_average iteration harmony_memory g =
     (case improvise R numbers hms hmcr par harmony_memory g of
        Inl e \<Rightarrow> Inl e
      | Inr (new_harmony, g1) \<Rightarrow>
          (case update_memory numbers target_average harmony_memory new_harmony of
             Inl e \<Rightarrow> Inl e
           | Inr updated \<Rightarrow>
               if ni div 10 = 0 then Inl ZeroDivisionError
               else if (int iteration + 1) mod (ni div 10) = 0 then
                 (case py_index updated 0 of
                    Inl e \<Rightarrow> Inl e
                  | Inr best \<Rightarrow> Inr (updated, g1))
               else Inr (updated, g1)))"

text \<open>The loop of line 93 over a list of iteration numbers; an exception ends it.\<close>

fun improvisation_loop ::
    "'g random_module \<Rightarrow> int list \<Rightarrow> int \<Rightarrow> rat \<Rightarrow> rat \<Rightarrow> int \<Rightarrow> rat \<Rightarrow> nat list
       \<Rightarrow> entry list \<Rightarrow> 'g \<Rightarrow> error + (entry list \<times> 'g)" where
  "improvisation_loop R numbers hms hmcr par ni target_average [] harmony_memory g =
     Inr (harmony_memory, g)"
| "improvisation_loop R numbers hms hmcr par ni target_average (iteration # rest) harmony_memory g =
     (case improvisation_step R numbers hms hmcr par ni target_average iteration harmony_memory g of
        Inl e \<Rightarrow> Inl e
      | Inr (updated, g1) \<Rightarrow>
          improvisation_loop R numbers hms hmcr par ni target_average rest updated g1)"

text \<open>
  Lines 75 to 130 with the loop stopped after \<open>k\<close> iterations: the harmony memory and the
  generator state at that moment. With \<open>k = 0\<close> it is the memory after initialisation,
  with \<open>k = ni\<close> the memory when the loop of the source ends.
\<close>

definition harmony_memory_after ::
    "'g random_module \<Rightarrow> int list \<Rightarrow> int \<Rightarrow> rat \<Rightarrow> rat \<Rightarrow> int \<Rightarrow> nat \<Rightarrow> 'g
       \<Rightarrow> error + (entry list \<times> 'g)" where
  "harmony_memory_after R numbers hms hmcr par ni k g =
     (let n = length numbers;
          total_sum = sum_list numbers;
          num_pairs = n div 2;
          target_average = of_int total_sum / of_nat num_pairs
      in case initialise_memory R numbers hms target_average g of
           Inl e \<Rightarrow> Inl e
         | Inr (harmony_memory, g1) \<Rightarrow>
             improvisation_loop R numbers hms hmcr par ni target_average [0..<k] harmony_memory g1)"

text \<open>
  Lines 139 to 147: the pairs of the best harmony with their sums and deviations, read
  by position.
\<close>

fun best_pairs_loop ::
    "int list \<Rightarrow> rat \<Rightarrow> nat list \<Rightarrow> ((int \<times> int) \<times> int \<times> rat) list
       \<Rightarrow> error + ((int \<times> int) \<times> int \<times> rat) list" where
  "best_pairs_loop final_harmony target_average [] best_pairs = Inr best_pairs"
| "best_pairs_loop final_harmony target_average (i # rest) best_pairs =
     (let idx1 = int (2 * i); idx2 = int (2 * i + 1) in
      case py_index final_harmony idx1 of
        Inl e \<Rightarrow> Inl e
      | Inr a \<Rightarrow>
          (case py_index final_harmony idx2 of
             Inl e \<Rightarrow> Inl e
           | Inr b \<Rightarrow>
               (let pair_sum = a + b; diff = \<bar>of_int pair_sum - target_average\<bar> in
                best_pairs_loop final_harmony target_average rest
                  (best_pairs @ [((a, b), pair_sum, diff)]))))"

text \<open>Lines 133 to 155: the first record of the memory is the result.\<close>

definition report_best ::
    "int list \<Rightarrow> rat \<Rightarrow> entry list \<Rightarrow> error + (int list option \<times> fitness_value)" where
  "report_best numbers target_average harmony_memory =
     (case py_index harmony_memory 0 of
        Inl e \<Rightarrow> Inl e
      | Inr best_solution \<Rightarrow>
          (case best_pairs_loop (entry_harmony best_solution) target_average
                  [0..<length numbers div 2] [] of
             Inl e \<Rightarrow> Inl e
           | Inr best_pairs \<Rightarrow>
               Inr (Some (entry_harmony best_solution), entry_fitness best_solution)))"

text \<open>
  \<^verbatim>\<open>harmony_search_pairing\<close>, lines 52 to 155. The result is the returned pair (with
  \<open>None\<close> for Python's \<^verbatim>\<open>None\<close>) and the generator state at the end, or the
  exception raised.
\<close>

definition harmony_search_pairing ::
    "'g random_module \<Rightarrow> int list \<Rightarrow> int \<Rightarrow> rat \<Rightarrow> rat \<Rightarrow> int \<Rightarrow> 'g
       \<Rightarrow> error + ((int list option \<times> fitness_value) \<times> 'g)" where
  "harmony_search_pairing R numbers hms hmcr par ni g =
     (let n = length numbers in
      if n mod 2 \<noteq> 0 then Inr ((None, PInf), g)
      else if n = 0 then Inr ((Some [], Fin 0), g)
      else
        (let target_average = of_int (sum_list numbers) / of_nat (n div 2) in
         case harmony_memory_after R numbers hms hmcr par ni (nat ni) g of
           Inl e \<Rightarrow> Inl e
         | Inr (harmony_memory, g1) \<Rightarrow>
             (case report_best numbers target_average harmony_memory of
                Inl e \<Rightarrow> Inl e
              | Inr result \<Rightarrow> Inr (result, g1))))"

text \<open>
  \<^verbatim>\<open>calculate_fitness\<close> applied to the harmony that \<^verbatim>\<open>harmony_search_pairing\<close>
  returns, which can be \<^verbatim>\<open>None\<close>: the test \<^verbatim>\<open>not harmony\<close> of line 12 holds
  for \<^verbatim>\<open>None\<close> as it does for the empty list.
\<close>

definition calculate_fitness_of_result :: "int list option \<Rightarrow> int list \<Rightarrow> rat \<Rightarrow> fitness_value" where
  "calculate_fitness_of_result harmony numbers target_average =
     (case harmony of
        None \<Rightarrow> PInf
      | Some permutation \<Rightarrow> calculate_fitness permutation numbers target_average)"

section \<open>Properties of the fitness function\<close>

lemma fit_add_Fin_0 [simp]: "fit_add (Fin 0) x = x"
  by (cases x) simp_all





section \<open>Inputs that are rejected or trivial\<close>

text \<open>
  Claim C6. On an input of odd length \<open>harmony_search_pairing\<close> returns
  \<open>(None, +infinity)\<close>: no exception is raised, and the generator state comes back
  untouched, whatever the generator is, so no harmony was generated and no memory was
  initialised.
\<close>

theorem odd_length_returns_none:
  "odd (length numbers) \<Longrightarrow>
   harmony_search_pairing R numbers hms hmcr par ni g = Inr ((None, PInf), g)"
  by (simp add: harmony_search_pairing_def Let_def odd_iff_mod_2_eq_one)

theorem odd_length_returns_none_witness:
  "odd (length [1, 2, 3 :: int]) \<and>
   harmony_search_pairing counter_random [1, 2, 3] 10 (9 / 10) (3 / 10) 200 0
     = Inr ((None, PInf), 0)"
  using odd_length_returns_none [of "[1, 2, 3]" counter_random 10 "9 / 10" "3 / 10" 200 0]
  by simp

text \<open>
  Claim C7. On the empty input \<open>harmony_search_pairing\<close> returns \<open>([], 0)\<close> at once:
  the generator state comes back untouched and the result does not depend on \<open>hms\<close> or
  \<open>ni\<close>, so neither the initialisation nor the loop has run.
\<close>

theorem empty_input_returns_empty:
  "harmony_search_pairing R [] hms hmcr par ni g = Inr ((Some [], Fin 0), g)"
  by (simp add: harmony_search_pairing_def)


section \<open>The harmony memory\<close>

subsection \<open>Indexing\<close>

lemma py_index_first: "xs \<noteq> [] \<Longrightarrow> py_index xs 0 = Inr (hd xs)"
  by (cases xs) (simp_all add: py_index_def)

lemma py_index_last: "xs \<noteq> [] \<Longrightarrow> py_index xs (- 1) = Inr (last xs)"
  by (cases xs rule: rev_cases) (simp_all add: py_index_def)

lemma py_index_empty: "py_index [] i = Inl IndexError"
  by (simp add: py_index_def)

lemma py_index_member: "py_index xs i = Inr x \<Longrightarrow> x \<in> set xs"
  by (auto simp: py_index_def split: if_splits)

lemma py_index_in_range:
  "0 \<le> i \<Longrightarrow> i < int (length xs) \<Longrightarrow> py_index xs i = Inr (xs ! nat i)"
  by (simp add: py_index_def)

lemma py_setitem_last:
  "xs \<noteq> [] \<Longrightarrow> py_setitem xs (- 1) v = Inr (xs[length xs - 1 := v])"
  by (cases xs rule: rev_cases) (simp_all add: py_setitem_def)

subsection \<open>Replacing the worst record\<close>

lemma update_memory_nonempty:
  assumes "harmony_memory \<noteq> []"
  shows "update_memory numbers t harmony_memory new_harmony =
           (if calculate_fitness new_harmony numbers t < entry_fitness (last harmony_memory)
            then Inr (sort_key entry_fitness
                   (harmony_memory[length harmony_memory - 1 :=
                      \<lparr> entry_harmony = new_harmony,
                        entry_fitness = calculate_fitness new_harmony numbers t \<rparr>]))
            else Inr harmony_memory)"
  using assms by (simp add: update_memory_def py_index_last py_setitem_last Let_def)

lemma update_memory_empty: "update_memory numbers t [] new_harmony = Inl IndexError"
  by (simp add: update_memory_def py_index_empty)

lemma update_memory_Inr_nonempty:
  "update_memory numbers t harmony_memory new_harmony = Inr updated \<Longrightarrow> harmony_memory \<noteq> []"
  by (cases harmony_memory) (simp_all add: update_memory_empty)

lemma update_memory_length:
  assumes "update_memory numbers t harmony_memory new_harmony = Inr updated"
  shows "length updated = length harmony_memory"
proof -
  have "harmony_memory \<noteq> []"
    using assms by (rule update_memory_Inr_nonempty)
  then show ?thesis
    using assms by (auto simp: update_memory_nonempty split: if_splits)
qed

lemma update_memory_sorted:
  assumes "update_memory numbers t harmony_memory new_harmony = Inr updated"
    and "sorted (map entry_fitness harmony_memory)"
  shows "sorted (map entry_fitness updated)"
proof -
  have "harmony_memory \<noteq> []"
    using assms(1) by (rule update_memory_Inr_nonempty)
  then show ?thesis
    using assms by (auto simp: update_memory_nonempty split: if_splits)
qed

lemma update_memory_entries:
  assumes "update_memory numbers t harmony_memory new_harmony = Inr updated"
    and "e \<in> set updated"
  shows "e \<in> set harmony_memory \<or>
         e = \<lparr> entry_harmony = new_harmony,
               entry_fitness = calculate_fitness new_harmony numbers t \<rparr>"
proof -
  have "harmony_memory \<noteq> []"
    using assms(1) by (rule update_memory_Inr_nonempty)
  then show ?thesis
    using assms
    by (auto simp: update_memory_nonempty split: if_splits
          dest!: set_update_subset_insert [THEN subsetD])
qed

lemma sorted_hd_least:
  assumes "sorted (map f xs)" and "x \<in> set xs"
  shows "f (hd xs) \<le> f x"
  using assms by (cases xs) auto

lemma update_memory_best:
  assumes "update_memory numbers t harmony_memory new_harmony = Inr updated"
  shows "harmony_memory \<noteq> [] \<and> updated \<noteq> [] \<and>
         entry_fitness (hd updated) \<le> entry_fitness (hd harmony_memory)"
proof -
  have ne: "harmony_memory \<noteq> []"
    using assms by (rule update_memory_Inr_nonempty)
  have len: "length updated = length harmony_memory"
    using assms by (rule update_memory_length)
  with ne have ne': "updated \<noteq> []"
    by auto
  let ?new = "\<lparr> entry_harmony = new_harmony,
                entry_fitness = calculate_fitness new_harmony numbers t \<rparr>"
  let ?replaced = "harmony_memory[length harmony_memory - 1 := ?new]"
  show ?thesis
  proof (cases "calculate_fitness new_harmony numbers t < entry_fitness (last harmony_memory)")
    case False
    with assms ne have "updated = harmony_memory"
      by (simp add: update_memory_nonempty)
    with ne show ?thesis by simp
  next
    case True
    with assms ne have upd: "updated = sort_key entry_fitness ?replaced"
      by (simp add: update_memory_nonempty)
    have sorted: "sorted (map entry_fitness updated)"
      unfolding upd by simp
    have "\<exists>x \<in> set updated. entry_fitness x \<le> entry_fitness (hd harmony_memory)"
    proof (cases "length harmony_memory = 1")
      case True
      then have "hd harmony_memory = last harmony_memory"
        by (cases harmony_memory) simp_all
      moreover from True have "?new \<in> set updated"
        unfolding upd by (cases harmony_memory) simp_all
      ultimately show ?thesis
        using \<open>calculate_fitness new_harmony numbers t < entry_fitness (last harmony_memory)\<close>
        by (intro bexI [of _ ?new]) simp_all
    next
      case False
      with ne have "0 < length harmony_memory - 1"
        by (cases harmony_memory) simp_all
      with ne have "?replaced ! 0 = harmony_memory ! 0" and "0 < length ?replaced"
        by simp_all
      then have "harmony_memory ! 0 \<in> set ?replaced"
        by (metis nth_mem)
      with ne have "hd harmony_memory \<in> set updated"
        unfolding upd by (simp add: hd_conv_nth)
      then show ?thesis by auto
    qed
    then obtain x where "x \<in> set updated"
      and "entry_fitness x \<le> entry_fitness (hd harmony_memory)"
      by blast
    with sorted_hd_least [OF sorted, of x]
    have "entry_fitness (hd updated) \<le> entry_fitness (hd harmony_memory)"
      by simp
    with ne ne' show ?thesis by simp
  qed
qed

subsection \<open>Filling and initialising the memory\<close>

lemma fill_memory_length:
  "length (fst (fill_memory R numbers t idxs harmony_memory g)) = length harmony_memory + length idxs"
  by (induction idxs arbitrary: harmony_memory g) (simp_all add: split_beta Let_def)

lemma fill_memory_entries:
  assumes "e \<in> set (fst (fill_memory R numbers t idxs harmony_memory g))"
  shows "e \<in> set harmony_memory \<or>
         (\<exists>g0. e = \<lparr> entry_harmony = fst (generate_random_harmony R numbers g0),
                      entry_fitness =
                        calculate_fitness (fst (generate_random_harmony R numbers g0)) numbers t \<rparr>)"
  using assms
proof (induction idxs arbitrary: harmony_memory g)
  case Nil
  then show ?case by simp
next
  case (Cons i idxs)
  let ?h = "fst (generate_random_harmony R numbers g)"
  let ?g1 = "snd (generate_random_harmony R numbers g)"
  let ?e = "\<lparr> entry_harmony = ?h, entry_fitness = calculate_fitness ?h numbers t \<rparr>"
  from Cons.prems
  have "e \<in> set (fst (fill_memory R numbers t idxs (harmony_memory @ [?e]) ?g1))"
    by (simp add: split_beta Let_def)
  then have "e \<in> set (harmony_memory @ [?e]) \<or>
         (\<exists>g0. e = \<lparr> entry_harmony = fst (generate_random_harmony R numbers g0),
                      entry_fitness =
                        calculate_fitness (fst (generate_random_harmony R numbers g0)) numbers t \<rparr>)"
    by (rule Cons.IH)
  then show ?case by auto
qed

lemma initialise_memory_Inr:
  assumes "initialise_memory R numbers hms t g = Inr (harmony_memory, g1)"
  shows "harmony_memory = sort_key entry_fitness (fst (fill_memory R numbers t [0..<nat hms] [] g))"
    and "harmony_memory \<noteq> []"
  using assms
  by (auto simp: initialise_memory_def split_beta Let_def py_index_empty split: sum.splits)

lemma initialise_memory_length:
  assumes "initialise_memory R numbers hms t g = Inr (harmony_memory, g1)"
  shows "int (length harmony_memory) = hms"
proof -
  have len: "length harmony_memory = nat hms"
    using initialise_memory_Inr(1) [OF assms] by (simp add: fill_memory_length)
  moreover have "harmony_memory \<noteq> []"
    using assms by (rule initialise_memory_Inr(2))
  ultimately show ?thesis
    by (cases "0 \<le> hms") auto
qed

lemma initialise_memory_entries:
  assumes "initialise_memory R numbers hms t g = Inr (harmony_memory, g1)"
    and "e \<in> set harmony_memory"
  shows "\<exists>g0. e = \<lparr> entry_harmony = fst (generate_random_harmony R numbers g0),
                     entry_fitness =
                       calculate_fitness (fst (generate_random_harmony R numbers g0)) numbers t \<rparr>"
proof -
  have "e \<in> set (fst (fill_memory R numbers t [0..<nat hms] [] g))"
    using initialise_memory_Inr(1) [OF assms(1)] assms(2) by simp
  from fill_memory_entries [OF this] show ?thesis by simp
qed

lemma initialise_memory_total:
  assumes "1 \<le> hms"
  shows "\<exists>harmony_memory g1. initialise_memory R numbers hms t g = Inr (harmony_memory, g1)"
proof -
  let ?filled = "fst (fill_memory R numbers t [0..<nat hms] [] g)"
  have "0 < length (sort_key entry_fitness ?filled)"
    using assms by (simp add: fill_memory_length)
  then have "sort_key entry_fitness ?filled \<noteq> []"
    by (rule length_greater_0_conv [THEN iffD1])
  then show ?thesis
    by (simp add: initialise_memory_def split_beta Let_def py_index_first)
qed

subsection \<open>The operators keep the multiset of elements\<close>

lemma generate_random_harmony_mset:
  "random_contract R \<Longrightarrow> mset (fst (generate_random_harmony R numbers g)) = mset numbers"
  by (simp add: generate_random_harmony_def random_contract_def)

lemma apply_pitch_adjustment_mset:
  assumes "apply_pitch_adjustment R harmony g = Inr (adjusted, g1)"
  shows "mset adjusted = mset harmony"
  using assms
  by (auto simp: apply_pitch_adjustment_def split_beta Let_def mset_swap split: if_splits)

lemma improvise_mset:
  assumes "improvise R numbers hms hmcr par harmony_memory g = Inr (new_harmony, g1)"
    and "random_contract R"
    and "\<forall>e \<in> set harmony_memory. mset (entry_harmony e) = mset numbers"
  shows "mset new_harmony = mset numbers"
proof (cases "fst (random_random R g) < hmcr")
  case False
  with assms(1) have "new_harmony = fst (generate_random_harmony R numbers (snd (random_random R g)))"
    by (auto simp: improvise_def split_beta Let_def)
  with assms(2) show ?thesis
    by (simp add: generate_random_harmony_mset)
next
  case True
  let ?g1 = "snd (random_random R g)"
  let ?idx = "fst (random_randint R 0 (hms - 1) ?g1)"
  let ?g2 = "snd (random_randint R 0 (hms - 1) ?g1)"
  from True assms(1) obtain base where base: "py_index harmony_memory ?idx = Inr base"
    and rest: "(if fst (random_random R ?g2) < par
                then apply_pitch_adjustment R (entry_harmony base) (snd (random_random R ?g2))
                else Inr (entry_harmony base, snd (random_random R ?g2))) = Inr (new_harmony, g1)"
    by (auto simp: improvise_def split_beta Let_def split: sum.splits)
  from base have "base \<in> set harmony_memory"
    by (rule py_index_member)
  with assms(3) have "mset (entry_harmony base) = mset numbers"
    by simp
  with rest show ?thesis
    by (auto split: if_splits dest: apply_pitch_adjustment_mset)
qed

subsection \<open>One iteration and the loop\<close>

lemma improvisation_step_Inr:
  assumes "improvisation_step R numbers hms hmcr par ni t iteration harmony_memory g = Inr (updated, g1)"
  shows "\<exists>new_harmony.
           improvise R numbers hms hmcr par harmony_memory g = Inr (new_harmony, g1) \<and>
           update_memory numbers t harmony_memory new_harmony = Inr updated \<and>
           ni div 10 \<noteq> 0"
  using assms
  by (auto simp: improvisation_step_def split: sum.splits if_splits)

lemma improvisation_loop_append:
  "improvisation_loop R numbers hms hmcr par ni t (xs @ ys) harmony_memory g =
     (case improvisation_loop R numbers hms hmcr par ni t xs harmony_memory g of
        Inl e \<Rightarrow> Inl e
      | Inr (updated, g1) \<Rightarrow> improvisation_loop R numbers hms hmcr par ni t ys updated g1)"
  by (induction xs arbitrary: harmony_memory g) (auto split: sum.splits)

lemma improvisation_loop_invariant:
  assumes "improvisation_loop R numbers hms hmcr par ni t its harmony_memory g = Inr (final, g1)"
    and "P harmony_memory"
    and "\<And>it m s m' s'. P m \<Longrightarrow>
           improvisation_step R numbers hms hmcr par ni t it m s = Inr (m', s') \<Longrightarrow> P m'"
  shows "P final"
  using assms(1,2)
proof (induction its arbitrary: harmony_memory g)
  case Nil
  then show ?case by simp
next
  case (Cons it its)
  from Cons.prems(1) obtain m' s' where
    step: "improvisation_step R numbers hms hmcr par ni t it harmony_memory g = Inr (m', s')"
    and rest: "improvisation_loop R numbers hms hmcr par ni t its m' s' = Inr (final, g1)"
    by (auto split: sum.splits)
  from Cons.prems(2) step have "P m'"
    by (rule assms(3))
  with rest show ?case
    by (rule Cons.IH)
qed

lemma harmony_memory_after_Inr:
  assumes "harmony_memory_after R numbers hms hmcr par ni k g = Inr (harmony_memory, g1)"
  shows "\<exists>initial g0.
           initialise_memory R numbers hms
             (of_int (sum_list numbers) / of_nat (length numbers div 2)) g = Inr (initial, g0) \<and>
           improvisation_loop R numbers hms hmcr par ni
             (of_int (sum_list numbers) / of_nat (length numbers div 2)) [0..<k] initial g0
             = Inr (harmony_memory, g1)"
  using assms
  by (auto simp: harmony_memory_after_def Let_def split: sum.splits)

lemma harmony_memory_after_Suc:
  "harmony_memory_after R numbers hms hmcr par ni (Suc k) g =
     (case harmony_memory_after R numbers hms hmcr par ni k g of
        Inl e \<Rightarrow> Inl e
      | Inr (harmony_memory, g1) \<Rightarrow>
          improvisation_step R numbers hms hmcr par ni
            (of_int (sum_list numbers) / of_nat (length numbers div 2)) k harmony_memory g1)"
  by (auto simp: harmony_memory_after_def Let_def improvisation_loop_append split: sum.splits)

subsection \<open>The example generator keeps the library's promises\<close>

lemma counter_random_sample2_distinct:
  assumes "2 \<le> (n::nat)"
  shows "g mod n \<noteq> Suc (g mod n) mod n"
proof (cases "Suc (g mod n) < n")
  case True
  then show ?thesis by simp
next
  case False
  moreover have "g mod n < n"
    using assms by simp
  ultimately have "Suc (g mod n) = n"
    by linarith
  then have "Suc (g mod n) mod n = 0" and "g mod n = n - 1"
    by simp_all
  with assms show ?thesis by simp
qed

lemma counter_random_contract: "random_contract counter_random"
proof -
  have "\<forall>g::nat. (0::rat) \<le> of_nat (g mod 10) / 10 \<and> (of_nat (g mod 10) / 10 :: rat) < 1"
  proof
    fix g :: nat
    have "g mod 10 < 10" by simp
    then have "(of_nat (g mod 10) :: rat) < of_nat 10"
      by (simp only: of_nat_less_iff)
    then show "(0::rat) \<le> of_nat (g mod 10) / 10 \<and> (of_nat (g mod 10) / 10 :: rat) < 1"
      by simp
  qed
  moreover have "\<forall>(a::int) b (g::nat). a \<le> b \<longrightarrow>
      a \<le> a + int g mod (b - a + 1) \<and> a + int g mod (b - a + 1) \<le> b"
  proof (intro allI impI)
    fix a b :: int and g :: nat
    assume "a \<le> b"
    then have pos: "0 < b - a + 1" by simp
    have "0 \<le> int g mod (b - a + 1)"
      using pos by (rule pos_mod_sign)
    moreover have "int g mod (b - a + 1) < b - a + 1"
      using pos by (rule pos_mod_bound)
    ultimately show "a \<le> a + int g mod (b - a + 1) \<and> a + int g mod (b - a + 1) \<le> b"
      by simp
  qed
  moreover have "\<forall>(n::nat) (g::nat). 2 \<le> n \<longrightarrow>
      g mod n < n \<and> Suc (g mod n) mod n < n \<and> g mod n \<noteq> Suc (g mod n) mod n"
    using counter_random_sample2_distinct by simp
  moreover have "\<forall>(xs::int list) (g::nat). mset (rotate g xs) = mset xs"
  proof (intro allI)
    fix xs :: "int list" and g :: nat
    have step: "mset (rotate1 ys) = mset ys" for ys :: "int list"
      by (cases ys) simp_all
    show "mset (rotate g xs) = mset xs"
      by (induction g) (simp_all add: step)
  qed
  ultimately show ?thesis
    by (simp add: random_contract_def counter_random_def)
qed

section \<open>Invariants of the harmony memory\<close>

text \<open>
  In the statements below \<open>harmony_memory_after \<dots> k g = Inr (m, g1)\<close> says that the run
  has reached the end of its \<open>k\<close>-th iteration (the end of the initialisation for
  \<open>k = 0\<close>) with the memory \<open>m\<close>. The hypotheses on \<open>numbers\<close> are the checks of lines
  68 and 71, which every run that initialises a memory has passed.
\<close>

text \<open>
  Claim C2. In a valid run (even, non-empty \<open>numbers\<close>, \<open>hms \<ge> 1\<close>) the fitness of the
  first record of the memory after an iteration is never larger than it was after the
  previous one.
\<close>

theorem best_fitness_non_increasing:
  assumes "even (length numbers)" and "numbers \<noteq> []" and "1 \<le> hms" and "k < nat ni"
    and "harmony_memory_after R numbers hms hmcr par ni k g = Inr (previous, g1)"
    and "harmony_memory_after R numbers hms hmcr par ni (Suc k) g = Inr (current, g2)"
  shows "previous \<noteq> [] \<and> current \<noteq> [] \<and>
         entry_fitness (hd current) \<le> entry_fitness (hd previous)"
proof -
  let ?t = "of_int (sum_list numbers) / of_nat (length numbers div 2) :: rat"
  from assms(5,6)
  have "improvisation_step R numbers hms hmcr par ni ?t k previous g1 = Inr (current, g2)"
    by (simp add: harmony_memory_after_Suc)
  from improvisation_step_Inr [OF this]
  obtain new_harmony where "update_memory numbers ?t previous new_harmony = Inr current"
    by blast
  then show ?thesis
    by (rule update_memory_best)
qed

theorem best_fitness_non_increasing_witness:
  "even (length [3, 1, 4, 1, 5, 9 :: int]) \<and> [3, 1, 4, 1, 5, 9 :: int] \<noteq> [] \<and> (1::int) \<le> 2
   \<and> (0::nat) < nat 10
   \<and> harmony_memory_after counter_random [3, 1, 4, 1, 5, 9] 2 (1 / 2) (7 / 10) 10 0 0
       = Inr ([\<lparr> entry_harmony = [1, 4, 1, 5, 9, 3], entry_fitness = Fin (26 / 3) \<rparr>,
               \<lparr> entry_harmony = [3, 1, 4, 1, 5, 9], entry_fitness = Fin (38 / 3) \<rparr>], 2)
   \<and> harmony_memory_after counter_random [3, 1, 4, 1, 5, 9] 2 (1 / 2) (7 / 10) 10 (Suc 0) 0
       = Inr ([\<lparr> entry_harmony = [9, 1, 4, 1, 5, 3], entry_fitness = Fin (16 / 3) \<rparr>,
               \<lparr> entry_harmony = [1, 4, 1, 5, 9, 3], entry_fitness = Fin (26 / 3) \<rparr>], 6)
   \<and> entry_fitness (hd [\<lparr> entry_harmony = [9, 1, 4, 1, 5, 3], entry_fitness = Fin (16 / 3) \<rparr>,
               \<lparr> entry_harmony = [1, 4, 1, 5, 9, 3], entry_fitness = Fin (26 / 3) \<rparr>])
       \<le> entry_fitness (hd [\<lparr> entry_harmony = [1, 4, 1, 5, 9, 3], entry_fitness = Fin (26 / 3) \<rparr>,
               \<lparr> entry_harmony = [3, 1, 4, 1, 5, 9], entry_fitness = Fin (38 / 3) \<rparr>])"
proof -
  have a: "harmony_memory_after counter_random [3, 1, 4, 1, 5, 9] 2 (1 / 2) (7 / 10) 10 0 0
       = Inr ([\<lparr> entry_harmony = [1, 4, 1, 5, 9, 3], entry_fitness = Fin (26 / 3) \<rparr>,
               \<lparr> entry_harmony = [3, 1, 4, 1, 5, 9], entry_fitness = Fin (38 / 3) \<rparr>], 2)"
    by code_simp
  have b: "harmony_memory_after counter_random [3, 1, 4, 1, 5, 9] 2 (1 / 2) (7 / 10) 10 (Suc 0) 0
       = Inr ([\<lparr> entry_harmony = [9, 1, 4, 1, 5, 3], entry_fitness = Fin (16 / 3) \<rparr>,
               \<lparr> entry_harmony = [1, 4, 1, 5, 9, 3], entry_fitness = Fin (26 / 3) \<rparr>], 6)"
    by code_simp
  have c: "even (length [3, 1, 4, 1, 5, 9 :: int])" "[3, 1, 4, 1, 5, 9 :: int] \<noteq> []"
    "(1::int) \<le> 2" "(0::nat) < nat 10"
    by simp_all
  from best_fitness_non_increasing [OF c a b] a b c show ?thesis
    by simp
qed

text \<open>
  Claim C3. After the initialisation and after every iteration the memory is sorted by
  fitness, non-decreasing from the first record to the last.
\<close>

theorem harmony_memory_sorted:
  assumes "even (length numbers)" and "numbers \<noteq> []" and "k \<le> nat ni"
    and "harmony_memory_after R numbers hms hmcr par ni k g = Inr (harmony_memory, g1)"
  shows "sorted (map entry_fitness harmony_memory)"
proof -
  let ?t = "of_int (sum_list numbers) / of_nat (length numbers div 2) :: rat"
  from harmony_memory_after_Inr [OF assms(4)] obtain initial g0 where
    init: "initialise_memory R numbers hms ?t g = Inr (initial, g0)" and
    loop: "improvisation_loop R numbers hms hmcr par ni ?t [0..<k] initial g0
             = Inr (harmony_memory, g1)"
    by blast
  have "sorted (map entry_fitness initial)"
    using initialise_memory_Inr(1) [OF init] by simp
  with loop show ?thesis
  proof (rule improvisation_loop_invariant)
    fix it m s m' s'
    assume inv: "sorted (map entry_fitness m)"
      and step: "improvisation_step R numbers hms hmcr par ni ?t it m s = Inr (m', s')"
    from improvisation_step_Inr [OF step] obtain new_harmony where
      "update_memory numbers ?t m new_harmony = Inr m'"
      by blast
    then show "sorted (map entry_fitness m')"
      using inv by (rule update_memory_sorted)
  qed
qed

theorem harmony_memory_sorted_witness:
  "even (length [3, 1, 4, 1, 5, 9 :: int]) \<and> [3, 1, 4, 1, 5, 9 :: int] \<noteq> [] \<and> Suc 0 \<le> nat 10
   \<and> harmony_memory_after counter_random [3, 1, 4, 1, 5, 9] 2 (1 / 2) (7 / 10) 10 (Suc 0) 0
       = Inr ([\<lparr> entry_harmony = [9, 1, 4, 1, 5, 3], entry_fitness = Fin (16 / 3) \<rparr>,
               \<lparr> entry_harmony = [1, 4, 1, 5, 9, 3], entry_fitness = Fin (26 / 3) \<rparr>], 6)
   \<and> sorted (map entry_fitness
         [\<lparr> entry_harmony = [9, 1, 4, 1, 5, 3], entry_fitness = Fin (16 / 3) \<rparr>,
          \<lparr> entry_harmony = [1, 4, 1, 5, 9, 3], entry_fitness = Fin (26 / 3) \<rparr>])"
proof -
  have a: "harmony_memory_after counter_random [3, 1, 4, 1, 5, 9] 2 (1 / 2) (7 / 10) 10 (Suc 0) 0
       = Inr ([\<lparr> entry_harmony = [9, 1, 4, 1, 5, 3], entry_fitness = Fin (16 / 3) \<rparr>,
               \<lparr> entry_harmony = [1, 4, 1, 5, 9, 3], entry_fitness = Fin (26 / 3) \<rparr>], 6)"
    by code_simp
  have c: "even (length [3, 1, 4, 1, 5, 9 :: int])" "[3, 1, 4, 1, 5, 9 :: int] \<noteq> []"
    "Suc 0 \<le> nat 10"
    by simp_all
  from harmony_memory_sorted [OF c a] a c show ?thesis
    by simp
qed

lemma harmony_memory_after_length:
  assumes "harmony_memory_after R numbers hms hmcr par ni k g = Inr (harmony_memory, g1)"
  shows "int (length harmony_memory) = hms"
proof -
  let ?t = "of_int (sum_list numbers) / of_nat (length numbers div 2) :: rat"
  from harmony_memory_after_Inr [OF assms] obtain initial g0 where
    init: "initialise_memory R numbers hms ?t g = Inr (initial, g0)" and
    loop: "improvisation_loop R numbers hms hmcr par ni ?t [0..<k] initial g0
             = Inr (harmony_memory, g1)"
    by blast
  have "int (length initial) = hms"
    using init by (rule initialise_memory_length)
  with loop show "int (length harmony_memory) = hms"
  proof (rule improvisation_loop_invariant)
    fix it m s m' s'
    assume inv: "int (length m) = hms"
      and step: "improvisation_step R numbers hms hmcr par ni ?t it m s = Inr (m', s')"
    from improvisation_step_Inr [OF step] obtain new_harmony where
      "update_memory numbers ?t m new_harmony = Inr m'"
      by blast
    then have "length m' = length m"
      by (rule update_memory_length)
    with inv show "int (length m') = hms"
      by simp
  qed
qed

text \<open>
  Claim C4. After the initialisation and after every iteration the memory holds exactly
  \<open>hms\<close> records, and replacing the worst record (\<open>update_memory\<close>) never changes the
  length of the memory.
\<close>

theorem harmony_memory_size:
  assumes "even (length numbers)" and "numbers \<noteq> []" and "k \<le> nat ni"
    and "harmony_memory_after R numbers hms hmcr par ni k g = Inr (harmony_memory, g1)"
  shows "int (length harmony_memory) = hms \<and>
         (\<forall>new_harmony updated.
            update_memory numbers t harmony_memory new_harmony = Inr updated
              \<longrightarrow> length updated = length harmony_memory)"
  using harmony_memory_after_length [OF assms(4)] update_memory_length by blast

theorem harmony_memory_size_witness:
  "even (length [3, 1, 4, 1, 5, 9 :: int]) \<and> [3, 1, 4, 1, 5, 9 :: int] \<noteq> [] \<and> Suc 0 \<le> nat 10
   \<and> harmony_memory_after counter_random [3, 1, 4, 1, 5, 9] 2 (1 / 2) (7 / 10) 10 (Suc 0) 0
       = Inr ([\<lparr> entry_harmony = [9, 1, 4, 1, 5, 3], entry_fitness = Fin (16 / 3) \<rparr>,
               \<lparr> entry_harmony = [1, 4, 1, 5, 9, 3], entry_fitness = Fin (26 / 3) \<rparr>], 6)
   \<and> int (length [\<lparr> entry_harmony = [9, 1, 4, 1, 5, 3], entry_fitness = Fin (16 / 3) \<rparr>,
                   \<lparr> entry_harmony = [1, 4, 1, 5, 9, 3], entry_fitness = Fin (26 / 3) \<rparr>]) = 2
   \<and> update_memory [3, 1, 4, 1, 5, 9] (23 / 3)
         [\<lparr> entry_harmony = [9, 1, 4, 1, 5, 3], entry_fitness = Fin (16 / 3) \<rparr>,
          \<lparr> entry_harmony = [1, 4, 1, 5, 9, 3], entry_fitness = Fin (26 / 3) \<rparr>]
         [3, 4, 1, 5, 9, 1]
       = Inr [\<lparr> entry_harmony = [3, 4, 1, 5, 9, 1], entry_fitness = Fin (14 / 3) \<rparr>,
              \<lparr> entry_harmony = [9, 1, 4, 1, 5, 3], entry_fitness = Fin (16 / 3) \<rparr>]
   \<and> length [\<lparr> entry_harmony = [3, 4, 1, 5, 9, 1], entry_fitness = Fin (14 / 3) \<rparr>,
              \<lparr> entry_harmony = [9, 1, 4, 1, 5, 3], entry_fitness = Fin (16 / 3) \<rparr>]
       = length [\<lparr> entry_harmony = [9, 1, 4, 1, 5, 3], entry_fitness = Fin (16 / 3) \<rparr>,
                 \<lparr> entry_harmony = [1, 4, 1, 5, 9, 3], entry_fitness = Fin (26 / 3) \<rparr>]"
proof -
  have a: "harmony_memory_after counter_random [3, 1, 4, 1, 5, 9] 2 (1 / 2) (7 / 10) 10 (Suc 0) 0
       = Inr ([\<lparr> entry_harmony = [9, 1, 4, 1, 5, 3], entry_fitness = Fin (16 / 3) \<rparr>,
               \<lparr> entry_harmony = [1, 4, 1, 5, 9, 3], entry_fitness = Fin (26 / 3) \<rparr>], 6)"
    by code_simp
  have b: "update_memory [3, 1, 4, 1, 5, 9] (23 / 3)
         [\<lparr> entry_harmony = [9, 1, 4, 1, 5, 3], entry_fitness = Fin (16 / 3) \<rparr>,
          \<lparr> entry_harmony = [1, 4, 1, 5, 9, 3], entry_fitness = Fin (26 / 3) \<rparr>]
         [3, 4, 1, 5, 9, 1]
       = Inr [\<lparr> entry_harmony = [3, 4, 1, 5, 9, 1], entry_fitness = Fin (14 / 3) \<rparr>,
              \<lparr> entry_harmony = [9, 1, 4, 1, 5, 3], entry_fitness = Fin (16 / 3) \<rparr>]"
    by code_simp
  have c: "even (length [3, 1, 4, 1, 5, 9 :: int])" "[3, 1, 4, 1, 5, 9 :: int] \<noteq> []"
    "Suc 0 \<le> nat 10"
    by simp_all
  from harmony_memory_size [OF c a, of "23 / 3"] a b c show ?thesis
    by simp
qed

lemma harmony_memory_after_mset:
  assumes "random_contract R"
    and "harmony_memory_after R numbers hms hmcr par ni k g = Inr (harmony_memory, g1)"
  shows "\<forall>e \<in> set harmony_memory. mset (entry_harmony e) = mset numbers"
proof -
  let ?t = "of_int (sum_list numbers) / of_nat (length numbers div 2) :: rat"
  let ?P = "\<lambda>m. \<forall>e \<in> set m. mset (entry_harmony e) = mset numbers"
  from harmony_memory_after_Inr [OF assms(2)] obtain initial g0 where
    init: "initialise_memory R numbers hms ?t g = Inr (initial, g0)" and
    loop: "improvisation_loop R numbers hms hmcr par ni ?t [0..<k] initial g0
             = Inr (harmony_memory, g1)"
    by blast
  have "?P initial"
  proof
    fix e
    assume "e \<in> set initial"
    from initialise_memory_entries [OF init this] assms(1)
    show "mset (entry_harmony e) = mset numbers"
      by (auto simp: generate_random_harmony_mset)
  qed
  with loop show "?P harmony_memory"
  proof (rule improvisation_loop_invariant)
    fix it m s m' s'
    assume inv: "?P m"
      and step: "improvisation_step R numbers hms hmcr par ni ?t it m s = Inr (m', s')"
    from improvisation_step_Inr [OF step] obtain new_harmony where
      imp: "improvise R numbers hms hmcr par m s = Inr (new_harmony, s')" and
      upd: "update_memory numbers ?t m new_harmony = Inr m'"
      by blast
    from imp assms(1) inv have new: "mset new_harmony = mset numbers"
      by (rule improvise_mset)
    show "?P m'"
    proof
      fix e
      assume "e \<in> set m'"
      from update_memory_entries [OF upd this] inv new
      show "mset (entry_harmony e) = mset numbers"
        by auto
    qed
  qed
qed

text \<open>
  Claim C5. With a generator that keeps the library's promises, every harmony in the
  memory, after the initialisation and after every iteration, has exactly the elements of
  the input, each as often as the input has it. Every harmony that is ever stored is in
  the memory at the end of the step that stores it.
\<close>

theorem harmony_memory_permutations:
  assumes "random_contract R"
    and "even (length numbers)" and "numbers \<noteq> []" and "k \<le> nat ni"
    and "harmony_memory_after R numbers hms hmcr par ni k g = Inr (harmony_memory, g1)"
  shows "\<forall>e \<in> set harmony_memory. mset (entry_harmony e) = mset numbers"
  using assms(1,5) by (rule harmony_memory_after_mset)

theorem harmony_memory_permutations_witness:
  "random_contract counter_random
   \<and> even (length [3, 1, 4, 1, 5, 9 :: int]) \<and> [3, 1, 4, 1, 5, 9 :: int] \<noteq> [] \<and> Suc 0 \<le> nat 10
   \<and> harmony_memory_after counter_random [3, 1, 4, 1, 5, 9] 2 (1 / 2) (7 / 10) 10 (Suc 0) 0
       = Inr ([\<lparr> entry_harmony = [9, 1, 4, 1, 5, 3], entry_fitness = Fin (16 / 3) \<rparr>,
               \<lparr> entry_harmony = [1, 4, 1, 5, 9, 3], entry_fitness = Fin (26 / 3) \<rparr>], 6)
   \<and> mset [9, 1, 4, 1, 5, 3] = mset [3, 1, 4, 1, 5, 9 :: int]
   \<and> mset [1, 4, 1, 5, 9, 3] = mset [3, 1, 4, 1, 5, 9 :: int]"
proof -
  have a: "harmony_memory_after counter_random [3, 1, 4, 1, 5, 9] 2 (1 / 2) (7 / 10) 10 (Suc 0) 0
       = Inr ([\<lparr> entry_harmony = [9, 1, 4, 1, 5, 3], entry_fitness = Fin (16 / 3) \<rparr>,
               \<lparr> entry_harmony = [1, 4, 1, 5, 9, 3], entry_fitness = Fin (26 / 3) \<rparr>], 6)"
    by code_simp
  have c: "even (length [3, 1, 4, 1, 5, 9 :: int])" "[3, 1, 4, 1, 5, 9 :: int] \<noteq> []"
    "Suc 0 \<le> nat 10"
    by simp_all
  from harmony_memory_permutations [OF counter_random_contract c a]
  have "mset [9, 1, 4, 1, 5, 3] = mset [3, 1, 4, 1, 5, 9 :: int]
      \<and> mset [1, 4, 1, 5, 9, 3] = mset [3, 1, 4, 1, 5, 9 :: int]"
    by simp
  with counter_random_contract a c show ?thesis
    by simp
qed

subsection \<open>The result comes from the memory\<close>

lemma report_best_Inr:
  assumes "report_best numbers t harmony_memory = Inr (best_harmony, best_fitness)"
  shows "\<exists>best \<in> set harmony_memory.
           best_harmony = Some (entry_harmony best) \<and> best_fitness = entry_fitness best"
  using assms
  by (auto simp: report_best_def split: sum.splits dest: py_index_member)

lemma harmony_memory_consistent:
  assumes "harmony_memory_after R numbers hms hmcr par ni k g = Inr (harmony_memory, g1)"
    and "e \<in> set harmony_memory"
  shows "entry_fitness e =
           calculate_fitness (entry_harmony e) numbers
             (of_int (sum_list numbers) / of_nat (length numbers div 2))"
proof -
  let ?t = "of_int (sum_list numbers) / of_nat (length numbers div 2) :: rat"
  let ?P = "\<lambda>m. \<forall>e \<in> set m. entry_fitness e = calculate_fitness (entry_harmony e) numbers ?t"
  from harmony_memory_after_Inr [OF assms(1)] obtain initial g0 where
    init: "initialise_memory R numbers hms ?t g = Inr (initial, g0)" and
    loop: "improvisation_loop R numbers hms hmcr par ni ?t [0..<k] initial g0
             = Inr (harmony_memory, g1)"
    by blast
  have "?P initial"
  proof
    fix e
    assume "e \<in> set initial"
    from initialise_memory_entries [OF init this]
    show "entry_fitness e = calculate_fitness (entry_harmony e) numbers ?t"
      by auto
  qed
  with loop have "?P harmony_memory"
  proof (rule improvisation_loop_invariant)
    fix it m s m' s'
    assume inv: "?P m"
      and step: "improvisation_step R numbers hms hmcr par ni ?t it m s = Inr (m', s')"
    from improvisation_step_Inr [OF step] obtain new_harmony where
      upd: "update_memory numbers ?t m new_harmony = Inr m'"
      by blast
    show "?P m'"
    proof
      fix e
      assume "e \<in> set m'"
      from update_memory_entries [OF upd this] inv
      show "entry_fitness e = calculate_fitness (entry_harmony e) numbers ?t"
        by auto
    qed
  qed
  with assms(2) show ?thesis
    by simp
qed

text \<open>
  Claim C10, as stated, fails on the empty input: the run returns \<open>([], 0)\<close> from line 73,
  while \<open>calculate_fitness\<close> of the empty harmony is \<open>+infinity\<close>, whatever the target.
\<close>

theorem returned_fitness_empty_input_counterexample:
  "harmony_search_pairing counter_random [] 10 (9 / 10) (3 / 10) 200 0 = Inr ((Some [], Fin 0), 0)
   \<and> calculate_fitness [] [] 0 = PInf \<and> Fin 0 \<noteq> PInf"
  by (simp add: harmony_search_pairing_def calculate_fitness_def)

text \<open>
  Claim C10, amended. In every run on a non-empty input: after the initialisation and
  after every iteration, the fitness stored in each record of the memory is
  \<open>calculate_fitness\<close> of the harmony stored beside it, with the numbers and the target
  average of the run; and the fitness finally returned is \<open>calculate_fitness\<close> of the
  harmony returned (for an odd-length input that is \<open>None\<close>, with \<open>+infinity\<close>).
\<close>

theorem harmony_memory_self_consistent:
  assumes "numbers \<noteq> []"
    and "t = of_int (sum_list numbers) / of_nat (length numbers div 2)"
  shows "(even (length numbers) \<and> k \<le> nat ni \<and>
          harmony_memory_after R numbers hms hmcr par ni k g = Inr (harmony_memory, g1)
            \<longrightarrow> (\<forall>e \<in> set harmony_memory.
                   entry_fitness e = calculate_fitness (entry_harmony e) numbers t))
       \<and> (harmony_search_pairing R numbers hms hmcr par ni g
              = Inr ((best_harmony, best_fitness), g2)
            \<longrightarrow> best_fitness = calculate_fitness_of_result best_harmony numbers t)"
proof (intro conjI impI)
  assume "even (length numbers) \<and> k \<le> nat ni \<and>
          harmony_memory_after R numbers hms hmcr par ni k g = Inr (harmony_memory, g1)"
  then have after: "harmony_memory_after R numbers hms hmcr par ni k g = Inr (harmony_memory, g1)"
    by simp
  show "\<forall>e \<in> set harmony_memory.
          entry_fitness e = calculate_fitness (entry_harmony e) numbers t"
    unfolding assms(2) using harmony_memory_consistent [OF after] by blast
next
  assume run: "harmony_search_pairing R numbers hms hmcr par ni g
                 = Inr ((best_harmony, best_fitness), g2)"
  show "best_fitness = calculate_fitness_of_result best_harmony numbers t"
  proof (cases "even (length numbers)")
    case False
    with run have "best_harmony = None" and "best_fitness = PInf"
      by (simp_all add: harmony_search_pairing_def Let_def odd_iff_mod_2_eq_one)
    then show ?thesis
      by (simp add: calculate_fitness_of_result_def)
  next
    case True
    with run assms obtain final where
      after: "harmony_memory_after R numbers hms hmcr par ni (nat ni) g = Inr (final, g2)" and
      report: "report_best numbers t final = Inr (best_harmony, best_fitness)"
      by (auto simp: harmony_search_pairing_def Let_def split: sum.splits)
    from report_best_Inr [OF report] obtain best where
      "best \<in> set final" and
      "best_harmony = Some (entry_harmony best)" and "best_fitness = entry_fitness best"
      by blast
    with harmony_memory_consistent [OF after, of best] assms(2) show ?thesis
      by (simp add: calculate_fitness_of_result_def)
  qed
qed

theorem harmony_memory_self_consistent_witness:
  "[3, 1, 4, 1, 5, 9 :: int] \<noteq> []
   \<and> (23 / 3 :: rat) = of_int (sum_list [3, 1, 4, 1, 5, 9]) / of_nat (length [3, 1, 4, 1, 5, 9 :: int] div 2)
   \<and> even (length [3, 1, 4, 1, 5, 9 :: int]) \<and> Suc 0 \<le> nat 10
   \<and> harmony_memory_after counter_random [3, 1, 4, 1, 5, 9] 2 (1 / 2) (7 / 10) 10 (Suc 0) 0
       = Inr ([\<lparr> entry_harmony = [9, 1, 4, 1, 5, 3], entry_fitness = Fin (16 / 3) \<rparr>,
               \<lparr> entry_harmony = [1, 4, 1, 5, 9, 3], entry_fitness = Fin (26 / 3) \<rparr>], 6)
   \<and> Fin (16 / 3) = calculate_fitness [9, 1, 4, 1, 5, 3] [3, 1, 4, 1, 5, 9] (23 / 3)
   \<and> Fin (26 / 3) = calculate_fitness [1, 4, 1, 5, 9, 3] [3, 1, 4, 1, 5, 9] (23 / 3)
   \<and> harmony_search_pairing counter_random [3, 1, 4, 1, 5, 9] 2 (1 / 2) (7 / 10) 10 0
       = Inr ((Some [3, 4, 1, 5, 9, 1], Fin (14 / 3)), 34)
   \<and> Fin (14 / 3) = calculate_fitness_of_result (Some [3, 4, 1, 5, 9, 1]) [3, 1, 4, 1, 5, 9] (23 / 3)"
proof -
  have a: "harmony_memory_after counter_random [3, 1, 4, 1, 5, 9] 2 (1 / 2) (7 / 10) 10 (Suc 0) 0
       = Inr ([\<lparr> entry_harmony = [9, 1, 4, 1, 5, 3], entry_fitness = Fin (16 / 3) \<rparr>,
               \<lparr> entry_harmony = [1, 4, 1, 5, 9, 3], entry_fitness = Fin (26 / 3) \<rparr>], 6)"
    by code_simp
  have b: "harmony_search_pairing counter_random [3, 1, 4, 1, 5, 9] 2 (1 / 2) (7 / 10) 10 0
       = Inr ((Some [3, 4, 1, 5, 9, 1], Fin (14 / 3)), 34)"
    by code_simp
  have c: "[3, 1, 4, 1, 5, 9 :: int] \<noteq> []"
    "(23 / 3 :: rat) = of_int (sum_list [3, 1, 4, 1, 5, 9]) / of_nat (length [3, 1, 4, 1, 5, 9 :: int] div 2)"
    by simp_all
  have d: "even (length [3, 1, 4, 1, 5, 9 :: int])" "Suc 0 \<le> nat 10"
    by simp_all
  note run = harmony_memory_self_consistent [OF c, of "Suc 0" 10 counter_random 2 "1 / 2" "7 / 10" 0
      "[\<lparr> entry_harmony = [9, 1, 4, 1, 5, 3], entry_fitness = Fin (16 / 3) \<rparr>,
        \<lparr> entry_harmony = [1, 4, 1, 5, 9, 3], entry_fitness = Fin (26 / 3) \<rparr>]" 6
      "Some [3, 4, 1, 5, 9, 1]" "Fin (14 / 3)" 34]
  have records: "\<forall>e \<in> set [\<lparr> entry_harmony = [9, 1, 4, 1, 5, 3], entry_fitness = Fin (16 / 3) \<rparr>,
        \<lparr> entry_harmony = [1, 4, 1, 5, 9, 3], entry_fitness = Fin (26 / 3) \<rparr>].
      entry_fitness e = calculate_fitness (entry_harmony e) [3, 1, 4, 1, 5, 9] (23 / 3)"
    by (rule run [THEN conjunct1, THEN mp]) (intro conjI d a)
  have result: "Fin (14 / 3) =
      calculate_fitness_of_result (Some [3, 4, 1, 5, 9, 1]) [3, 1, 4, 1, 5, 9] (23 / 3)"
    by (rule run [THEN conjunct2, THEN mp]) (rule b)
  from records
  have first: "Fin (16 / 3) = calculate_fitness [9, 1, 4, 1, 5, 3] [3, 1, 4, 1, 5, 9] (23 / 3)"
    and second: "Fin (26 / 3) = calculate_fitness [1, 4, 1, 5, 9, 3] [3, 1, 4, 1, 5, 9] (23 / 3)"
    by simp_all
  show ?thesis
    by (intro conjI c d a first second b result)
qed

section \<open>The pitch adjustment\<close>

lemma swap_changes_at_most_two:
  assumes "i < length xs" and "j < length xs"
  shows "card {p. p < length xs \<and> xs[i := xs ! j, j := xs ! i] ! p \<noteq> xs ! p} \<le> 2"
proof -
  have "{p. p < length xs \<and> xs[i := xs ! j, j := xs ! i] ! p \<noteq> xs ! p} \<subseteq> {i, j}"
  proof
    fix p
    assume "p \<in> {p. p < length xs \<and> xs[i := xs ! j, j := xs ! i] ! p \<noteq> xs ! p}"
    then have changed: "xs[i := xs ! j, j := xs ! i] ! p \<noteq> xs ! p"
      by simp
    show "p \<in> {i, j}"
    proof (rule ccontr)
      assume "p \<notin> {i, j}"
      then have "xs[i := xs ! j, j := xs ! i] ! p = xs ! p"
        by simp
      with changed show False ..
    qed
  qed
  then have "card {p. p < length xs \<and> xs[i := xs ! j, j := xs ! i] ! p \<noteq> xs ! p} \<le> card {i, j}"
    by (rule card_mono [rotated]) simp
  also have "\<dots> \<le> 2"
    by (simp add: card_insert_if)
  finally show ?thesis .
qed

text \<open>
  Claim C9. With a generator that keeps the library's promises, \<open>apply_pitch_adjustment\<close>
  on a harmony of length at least 2 returns the harmony with two distinct positions
  exchanged: a permutation of the same multiset that differs from the input in at most
  2 positions. On a harmony of length below 2 it returns the input unchanged.
\<close>

theorem apply_pitch_adjustment_swap:
  assumes "random_contract R"
  shows "(2 \<le> length harmony \<longrightarrow>
            (\<exists>adjusted g1 i j.
               apply_pitch_adjustment R harmony g = Inr (adjusted, g1) \<and>
               i < length harmony \<and> j < length harmony \<and> i \<noteq> j \<and>
               adjusted = harmony[i := harmony ! j, j := harmony ! i] \<and>
               mset adjusted = mset harmony \<and>
               card {p. p < length harmony \<and> adjusted ! p \<noteq> harmony ! p} \<le> 2))
       \<and> (length harmony < 2 \<longrightarrow> apply_pitch_adjustment R harmony g = Inr (harmony, g))"
proof (intro conjI impI)
  assume long: "2 \<le> length harmony"
  let ?s = "random_sample2 R (length harmony) g"
  let ?i = "fst (fst ?s)" and ?j = "snd (fst ?s)"
  from assms long have i: "?i < length harmony" and j: "?j < length harmony" and ij: "?i \<noteq> ?j"
    by (simp_all add: random_contract_def)
  let ?adjusted = "harmony[?i := harmony ! ?j, ?j := harmony ! ?i]"
  from long i j have "apply_pitch_adjustment R harmony g = Inr (?adjusted, snd ?s)"
    by (simp add: apply_pitch_adjustment_def split_beta Let_def)
  moreover have "mset ?adjusted = mset harmony"
    using j i by (rule mset_swap)
  moreover have "card {p. p < length harmony \<and> ?adjusted ! p \<noteq> harmony ! p} \<le> 2"
    using i j by (rule swap_changes_at_most_two)
  ultimately show "\<exists>adjusted g1 i j.
               apply_pitch_adjustment R harmony g = Inr (adjusted, g1) \<and>
               i < length harmony \<and> j < length harmony \<and> i \<noteq> j \<and>
               adjusted = harmony[i := harmony ! j, j := harmony ! i] \<and>
               mset adjusted = mset harmony \<and>
               card {p. p < length harmony \<and> adjusted ! p \<noteq> harmony ! p} \<le> 2"
    using i j ij by blast
next
  assume "length harmony < 2"
  then show "apply_pitch_adjustment R harmony g = Inr (harmony, g)"
    by (simp add: apply_pitch_adjustment_def)
qed

theorem apply_pitch_adjustment_swap_witness:
  "random_contract counter_random
   \<and> 2 \<le> length [1, 2, 3, 4 :: int]
   \<and> apply_pitch_adjustment counter_random [1, 2, 3, 4 :: int] 6 = Inr ([1, 2, 4, 3], 7)
   \<and> mset [1, 2, 4, 3] = mset [1, 2, 3, 4 :: int]
   \<and> card {p. p < length [1, 2, 3, 4 :: int] \<and> [1, 2, 4, 3] ! p \<noteq> [1, 2, 3, 4 :: int] ! p} \<le> 2
   \<and> length [5 :: int] < 2
   \<and> apply_pitch_adjustment counter_random [5 :: int] 6 = Inr ([5], 6)"
proof -
  have run: "apply_pitch_adjustment counter_random [1, 2, 3, 4 :: int] 6 = Inr ([1, 2, 4, 3], 7)"
    by code_simp
  have long: "2 \<le> length [1, 2, 3, 4 :: int]" and short: "length [5 :: int] < 2"
    by simp_all
  note swap = apply_pitch_adjustment_swap [OF counter_random_contract]
  from swap [of "[1, 2, 3, 4]" 6, THEN conjunct1, THEN mp, OF long]
  obtain adjusted g1 where
    "apply_pitch_adjustment counter_random [1, 2, 3, 4 :: int] 6 = Inr (adjusted, g1)" and
    "mset adjusted = mset [1, 2, 3, 4 :: int]" and
    "card {p. p < length [1, 2, 3, 4 :: int] \<and> adjusted ! p \<noteq> [1, 2, 3, 4 :: int] ! p} \<le> 2"
    by blast
  with run have perm: "mset [1, 2, 4, 3] = mset [1, 2, 3, 4 :: int]" and
    changed: "card {p. p < length [1, 2, 3, 4 :: int] \<and> [1, 2, 4, 3] ! p \<noteq> [1, 2, 3, 4 :: int] ! p} \<le> 2"
    by simp_all
  have unchanged: "apply_pitch_adjustment counter_random [5 :: int] 6 = Inr ([5], 6)"
    by (rule swap [of "[5]" 6, THEN conjunct2, THEN mp]) (rule short)
  show ?thesis
    by (intro conjI counter_random_contract long run perm changed short unchanged)
qed

section \<open>Completion of the loop\<close>

lemma random_randint_bounds:
  assumes "random_contract R" and "a \<le> b"
  shows "a \<le> fst (random_randint R a b g)" and "fst (random_randint R a b g) \<le> b"
  using assms by (simp_all add: random_contract_def)

lemma py_index_nat: "n < length xs \<Longrightarrow> py_index xs (int n) = Inr (xs ! n)"
  by (simp add: py_index_def)

lemma apply_pitch_adjustment_total:
  assumes "random_contract R"
  shows "\<exists>adjusted g1. apply_pitch_adjustment R harmony g = Inr (adjusted, g1)"
proof (cases "length harmony < 2")
  case True
  then show ?thesis
    by (simp add: apply_pitch_adjustment_def)
next
  case False
  then have "2 \<le> length harmony"
    by simp
  with assms
  have "fst (fst (random_sample2 R (length harmony) g)) < length harmony"
    and "snd (fst (random_sample2 R (length harmony) g)) < length harmony"
    by (simp_all add: random_contract_def)
  with False show ?thesis
    by (simp add: apply_pitch_adjustment_def split_beta Let_def)
qed

lemma improvise_total:
  assumes "random_contract R" and "1 \<le> hms" and "int (length harmony_memory) = hms"
  shows "\<exists>new_harmony g1. improvise R numbers hms hmcr par harmony_memory g = Inr (new_harmony, g1)"
proof (cases "fst (random_random R g) < hmcr")
  case False
  then show ?thesis
    by (simp add: improvise_def split_beta Let_def generate_random_harmony_def)
next
  case True
  let ?g1 = "snd (random_random R g)"
  let ?idx = "fst (random_randint R 0 (hms - 1) ?g1)"
  let ?g2 = "snd (random_randint R 0 (hms - 1) ?g1)"
  from assms(2) have "(0::int) \<le> hms - 1"
    by simp
  with assms(1) have "0 \<le> ?idx" and "?idx \<le> hms - 1"
    by (rule random_randint_bounds)+
  with assms(3) have base: "py_index harmony_memory ?idx = Inr (harmony_memory ! nat ?idx)"
    by (simp add: py_index_in_range)
  let ?base = "entry_harmony (harmony_memory ! nat ?idx)"
  from apply_pitch_adjustment_total [OF assms(1)]
  obtain adjusted g4 where
    "apply_pitch_adjustment R ?base (snd (random_random R ?g2)) = Inr (adjusted, g4)"
    by blast
  with True base show ?thesis
    by (simp add: improvise_def split_beta Let_def)
qed

lemma improvisation_step_progress:
  assumes "random_contract R" and "1 \<le> hms" and "int (length harmony_memory) = hms"
  shows "if ni div 10 = 0
         then improvisation_step R numbers hms hmcr par ni t iteration harmony_memory g
                = Inl ZeroDivisionError
         else \<exists>updated g1.
                improvisation_step R numbers hms hmcr par ni t iteration harmony_memory g
                  = Inr (updated, g1)"
proof -
  from improvise_total [OF assms] obtain new_harmony g1 where
    imp: "improvise R numbers hms hmcr par harmony_memory g = Inr (new_harmony, g1)"
    by blast
  from assms(2,3) have ne: "harmony_memory \<noteq> []"
    by auto
  then have "\<exists>updated. update_memory numbers t harmony_memory new_harmony = Inr updated"
    by (simp add: update_memory_nonempty)
  then obtain updated where upd: "update_memory numbers t harmony_memory new_harmony = Inr updated"
    by blast
  from update_memory_length [OF upd] ne have "updated \<noteq> []"
    by auto
  then have "py_index updated 0 = Inr (hd updated)"
    by (rule py_index_first)
  with imp upd show ?thesis
    by (simp add: improvisation_step_def)
qed

lemma improvisation_step_length:
  assumes "improvisation_step R numbers hms hmcr par ni t iteration harmony_memory g = Inr (updated, g1)"
  shows "length updated = length harmony_memory"
proof -
  from improvisation_step_Inr [OF assms] obtain new_harmony where
    "update_memory numbers t harmony_memory new_harmony = Inr updated"
    by blast
  then show ?thesis
    by (rule update_memory_length)
qed

lemma improvisation_loop_total:
  assumes "random_contract R" and "1 \<le> hms" and "ni div 10 \<noteq> 0"
    and "int (length harmony_memory) = hms"
  shows "\<exists>final g1.
           improvisation_loop R numbers hms hmcr par ni t its harmony_memory g = Inr (final, g1)"
  using assms(4)
proof (induction its arbitrary: harmony_memory g)
  case Nil
  then show ?case by simp
next
  case (Cons it its)
  from improvisation_step_progress [OF assms(1,2) Cons.prems, of ni numbers hmcr par t it g] assms(3)
  obtain updated g1 where
    step: "improvisation_step R numbers hms hmcr par ni t it harmony_memory g = Inr (updated, g1)"
    by auto
  from improvisation_step_length [OF step] Cons.prems have "int (length updated) = hms"
    by simp
  from Cons.IH [OF this, of g1] step show ?case
    by simp
qed

lemma improvisation_loop_first_step_raises:
  assumes "random_contract R" and "1 \<le> hms" and "ni div 10 = 0"
    and "int (length harmony_memory) = hms" and "its \<noteq> []"
  shows "improvisation_loop R numbers hms hmcr par ni t its harmony_memory g = Inl ZeroDivisionError"
proof -
  from assms(5) obtain it rest where its: "its = it # rest"
    by (cases its) auto
  from improvisation_step_progress [OF assms(1,2,4), of ni numbers hmcr par t it g] assms(3)
  have "improvisation_step R numbers hms hmcr par ni t it harmony_memory g = Inl ZeroDivisionError"
    by simp
  with its show ?thesis
    by simp
qed

subsection \<open>Reporting the best harmony\<close>

lemma best_pairs_loop_total:
  assumes "\<forall>i \<in> set idxs. 2 * i + 1 < length final_harmony"
  shows "\<exists>pairs. best_pairs_loop final_harmony t idxs best_pairs = Inr pairs"
  using assms
proof (induction idxs arbitrary: best_pairs)
  case Nil
  then show ?case by simp
next
  case (Cons i idxs)
  from Cons.prems have "2 * i + 1 < length final_harmony"
    by simp
  then have "2 * i < length final_harmony"
    by simp
  then have "py_index final_harmony (int (2 * i)) = Inr (final_harmony ! (2 * i))"
    by (rule py_index_nat)
  moreover from \<open>2 * i + 1 < length final_harmony\<close>
  have "py_index final_harmony (int (2 * i + 1)) = Inr (final_harmony ! (2 * i + 1))"
    by (rule py_index_nat)
  moreover from Cons.prems have "\<forall>i \<in> set idxs. 2 * i + 1 < length final_harmony"
    by simp
  ultimately show ?case
    using Cons.IH by (simp add: Let_def)
qed

lemma report_best_total:
  assumes "harmony_memory \<noteq> []"
    and "\<forall>e \<in> set harmony_memory. mset (entry_harmony e) = mset numbers"
  shows "report_best numbers t harmony_memory
           = Inr (Some (entry_harmony (hd harmony_memory)), entry_fitness (hd harmony_memory))"
proof -
  from assms have "mset (entry_harmony (hd harmony_memory)) = mset numbers"
    by simp
  then have "length (entry_harmony (hd harmony_memory)) = length numbers"
    by (rule mset_eq_length)
  then have "\<forall>i \<in> set [0..<length numbers div 2].
               2 * i + 1 < length (entry_harmony (hd harmony_memory))"
    by auto
  from best_pairs_loop_total [OF this] obtain pairs where
    "best_pairs_loop (entry_harmony (hd harmony_memory)) t [0..<length numbers div 2] [] = Inr pairs"
    by blast
  with assms(1) show ?thesis
    by (simp add: report_best_def py_index_first)
qed

subsection \<open>The whole run\<close>

lemma harmony_search_pairing_returns:
  assumes "random_contract R" and "even (length numbers)" and "numbers \<noteq> []"
    and "1 \<le> hms" and "ni \<le> 0 \<or> 10 \<le> ni"
  shows "\<exists>best_harmony best_fitness g1.
           harmony_search_pairing R numbers hms hmcr par ni g
             = Inr ((Some best_harmony, best_fitness), g1)"
proof -
  let ?t = "of_int (sum_list numbers) / of_nat (length numbers div 2) :: rat"
  from initialise_memory_total [OF assms(4), where R = R and numbers = numbers and t = "?t" and g = g]
  obtain initial g0 where
    init: "initialise_memory R numbers hms ?t g = Inr (initial, g0)"
    by blast
  have len: "int (length initial) = hms"
    using init by (rule initialise_memory_length)
  have "\<exists>final g1. improvisation_loop R numbers hms hmcr par ni ?t [0..<nat ni] initial g0
                      = Inr (final, g1)"
  proof (cases "ni \<le> 0")
    case True
    then show ?thesis by simp
  next
    case False
    with assms(5) have "ni div 10 \<noteq> 0"
      by (simp add: div_eq_0_iff)
    with assms(1,4) show ?thesis
      using len by (rule improvisation_loop_total)
  qed
  then obtain final g1 where
    loop: "improvisation_loop R numbers hms hmcr par ni ?t [0..<nat ni] initial g0 = Inr (final, g1)"
    by blast
  with init have after:
    "harmony_memory_after R numbers hms hmcr par ni (nat ni) g = Inr (final, g1)"
    by (simp add: harmony_memory_after_def)
  from harmony_memory_after_length [OF after] assms(4) have ne: "final \<noteq> []"
    by auto
  have "\<forall>e \<in> set final. mset (entry_harmony e) = mset numbers"
    using assms(1) after by (rule harmony_memory_after_mset)
  with ne have "report_best numbers ?t final
                  = Inr (Some (entry_harmony (hd final)), entry_fitness (hd final))"
    by (rule report_best_total)
  with after assms(2,3) show ?thesis
    by (simp add: harmony_search_pairing_def)
qed

text \<open>
  Claim C8 says that every valid run with a positive \<open>ni\<close> completes its loop and
  returns. The code does so when \<open>ni \<ge> 10\<close> (\<open>harmony_search_pairing_returns\<close>). For
  \<open>0 < ni < 10\<close> the progress message of line 129 divides by \<open>ni // 10 = 0\<close>: the first
  iteration raises \<open>ZeroDivisionError\<close> and the run returns nothing.
\<close>

theorem small_iteration_count_raises:
  assumes "random_contract R" and "even (length numbers)" and "numbers \<noteq> []"
    and "1 \<le> hms" and "0 < ni" and "ni < 10"
  shows "harmony_search_pairing R numbers hms hmcr par ni g = Inl ZeroDivisionError"
proof -
  let ?t = "of_int (sum_list numbers) / of_nat (length numbers div 2) :: rat"
  from initialise_memory_total [OF assms(4), where R = R and numbers = numbers and t = "?t" and g = g]
  obtain initial g0 where
    init: "initialise_memory R numbers hms ?t g = Inr (initial, g0)"
    by blast
  have len: "int (length initial) = hms"
    using init by (rule initialise_memory_length)
  from assms(5,6) have zero: "ni div 10 = 0"
    by simp
  from assms(5) have "[0..<nat ni] \<noteq> []"
    by simp
  with assms(1,4) zero len
  have "improvisation_loop R numbers hms hmcr par ni ?t [0..<nat ni] initial g0
          = Inl ZeroDivisionError"
    by (rule improvisation_loop_first_step_raises)
  with init have "harmony_memory_after R numbers hms hmcr par ni (nat ni) g = Inl ZeroDivisionError"
    by (simp add: harmony_memory_after_def)
  with assms(2,3) show ?thesis
    by (simp add: harmony_search_pairing_def)
qed

theorem small_iteration_count_raises_witness:
  "random_contract counter_random \<and> even (length [1, 2 :: int]) \<and> [1, 2 :: int] \<noteq> []
   \<and> (1::int) \<le> 1 \<and> (0::int) < 5 \<and> (5::int) < 10
   \<and> harmony_search_pairing counter_random [1, 2] 1 (9 / 10) (3 / 10) 5 0 = Inl ZeroDivisionError"
proof -
  have c: "even (length [1, 2 :: int])" "[1, 2 :: int] \<noteq> []"
    "(1::int) \<le> 1" "(0::int) < 5" "(5::int) < 10"
    by simp_all
  from small_iteration_count_raises [OF counter_random_contract c]
  have "harmony_search_pairing counter_random [1, 2] 1 (9 / 10) (3 / 10) 5 0 = Inl ZeroDivisionError" .
  with counter_random_contract c show ?thesis
    by simp
qed

text \<open>The same two runs, computed directly from the definitions.\<close>

lemma five_iterations_raise:
  "harmony_search_pairing counter_random [1, 2] 1 (9 / 10) (3 / 10) 5 0 = Inl ZeroDivisionError"
  by code_simp

lemma ten_iterations_return:
  "harmony_search_pairing counter_random [1, 2] 1 (9 / 10) (3 / 10) 10 0
     = Inr ((Some [1, 2], Fin 0), 34)"
  by code_simp

end
